theory Spec2Isabelle
  imports Main "HOL-Library.Sublist"
begin

section \<open>Python values used by the agent and the dispatcher\<close>

text \<open>
  A Python \<^verbatim>\<open>str\<close> is modelled by the list of its UTF-8 bytes (\<^typ>\<open>string\<close>). All
  literals of the source are ASCII. An exception is a value of type \<open>error\<close> that carries the
  text \<^verbatim>\<open>str(e)\<close>; a call that may raise returns \<open>error + 'a\<close>, with \<open>Inl\<close> for the
  exception.
\<close>

datatype error =
    ValueError string
  | TypeError string
  | CalledProcessError string
  | OtherException string

fun str_error :: "error \<Rightarrow> string" where
  "str_error (ValueError m) = m"
| "str_error (TypeError m) = m"
| "str_error (CalledProcessError m) = m"
| "str_error (OtherException m) = m"

text \<open>\<^verbatim>\<open>str(n)\<close> for an unbounded Python integer.\<close>

fun digits :: "nat \<Rightarrow> string" where
  "digits n =
     (if n < 10 then [''0123456789'' ! n]
      else digits (n div 10) @ [''0123456789'' ! (n mod 10)])"

declare digits.simps [simp del]

definition str_int :: "int \<Rightarrow> string" where
  "str_int i = (if i < 0 then CHR ''-'' # digits (nat (- i)) else digits (nat i))"

text \<open>\<^verbatim>\<open>sep.join(xs)\<close>.\<close>

fun join :: "string \<Rightarrow> string list \<Rightarrow> string" where
  "join sep [] = []"
| "join sep [x] = x"
| "join sep (x # y # ys) = x @ sep @ join sep (y # ys)"

subsection \<open>\<^verbatim>\<open>str.strip()\<close>\<close>

text \<open>
  \<^verbatim>\<open>str.strip()\<close> without argument removes the code points for which
  \<^verbatim>\<open>str.isspace()\<close> holds: U+0009..U+000D, U+001C..U+0020, U+0085, U+00A0, U+1680,
  U+2000..U+200A, U+2028, U+2029, U+202F, U+205F and U+3000. \<open>whitespace\<close> lists their
  UTF-8 encodings.
\<close>

definition whitespace :: "string list" where
  "whitespace =
     [[CHR 0x09], [CHR 0x0A], [CHR 0x0B], [CHR 0x0C], [CHR 0x0D],
      [CHR 0x1C], [CHR 0x1D], [CHR 0x1E], [CHR 0x1F], [CHR 0x20],
      [CHR 0xC2, CHR 0x85], [CHR 0xC2, CHR 0xA0],
      [CHR 0xE1, CHR 0x9A, CHR 0x80],
      [CHR 0xE2, CHR 0x80, CHR 0x80], [CHR 0xE2, CHR 0x80, CHR 0x81],
      [CHR 0xE2, CHR 0x80, CHR 0x82], [CHR 0xE2, CHR 0x80, CHR 0x83],
      [CHR 0xE2, CHR 0x80, CHR 0x84], [CHR 0xE2, CHR 0x80, CHR 0x85],
      [CHR 0xE2, CHR 0x80, CHR 0x86], [CHR 0xE2, CHR 0x80, CHR 0x87],
      [CHR 0xE2, CHR 0x80, CHR 0x88], [CHR 0xE2, CHR 0x80, CHR 0x89],
      [CHR 0xE2, CHR 0x80, CHR 0x8A],
      [CHR 0xE2, CHR 0x80, CHR 0xA8], [CHR 0xE2, CHR 0x80, CHR 0xA9],
      [CHR 0xE2, CHR 0x80, CHR 0xAF],
      [CHR 0xE2, CHR 0x81, CHR 0x9F],
      [CHR 0xE3, CHR 0x80, CHR 0x80]]"

text \<open>The whitespace character a text starts with, and the one it ends with.\<close>

definition leading_space :: "string \<Rightarrow> string option" where
  "leading_space s = find (\<lambda>q. prefix q s) whitespace"

definition trailing_space :: "string \<Rightarrow> string option" where
  "trailing_space s = find (\<lambda>q. suffix q s) whitespace"

lemma whitespace_nonempty: "q \<in> set whitespace \<Longrightarrow> q \<noteq> []"
  by (auto simp: whitespace_def)

lemma leading_space_SomeD:
  "leading_space s = Some q \<Longrightarrow> q \<in> set whitespace \<and> prefix q s"
  by (auto simp: leading_space_def find_Some_iff)

lemma trailing_space_SomeD:
  "trailing_space s = Some q \<Longrightarrow> q \<in> set whitespace \<and> suffix q s"
  by (auto simp: trailing_space_def find_Some_iff)

function lstrip :: "string \<Rightarrow> string" where
  "lstrip s =
     (case leading_space s of
        None \<Rightarrow> s
      | Some q \<Rightarrow> lstrip (drop (length q) s))"
  by pat_completeness auto
termination
proof (relation "measure length")
  show "wf (measure length)" by simp
next
  fix s q
  assume "leading_space s = Some q"
  then have "q \<noteq> []" and "prefix q s"
    using leading_space_SomeD whitespace_nonempty by blast+
  then show "(drop (length q) s, s) \<in> measure length"
    by (cases s) (auto simp: prefix_def)
qed

function rstrip :: "string \<Rightarrow> string" where
  "rstrip s =
     (case trailing_space s of
        None \<Rightarrow> s
      | Some q \<Rightarrow> rstrip (take (length s - length q) s))"
  by pat_completeness auto
termination
proof (relation "measure length")
  show "wf (measure length)" by simp
next
  fix s q
  assume "trailing_space s = Some q"
  then have "q \<noteq> []" and "suffix q s"
    using trailing_space_SomeD whitespace_nonempty by blast+
  then show "(take (length s - length q) s, s) \<in> measure length"
    by (cases s) (auto simp: suffix_def)
qed

declare lstrip.simps [simp del] rstrip.simps [simp del]

definition str_strip :: "string \<Rightarrow> string" where
  "str_strip s = rstrip (lstrip s)"

subsection \<open>\<^verbatim>\<open>str.replace(old, new)\<close>\<close>

function str_replace :: "string \<Rightarrow> string \<Rightarrow> string \<Rightarrow> string" where
  "str_replace old new [] = (if old = [] then new else [])"
| "str_replace old new (c # cs) =
     (if old = [] then new @ c # str_replace old new cs
      else if prefix old (c # cs) then new @ str_replace old new (drop (length old) (c # cs))
      else c # str_replace old new cs)"
  by pat_completeness auto
termination
  by (relation "measure (\<lambda>(old, new, s). length s)") (auto simp: prefix_def)

section \<open>Data model\<close>

text \<open>
  Modelled from the spec: the module \<^verbatim>\<open>schemas\<close> (classes \<^verbatim>\<open>PlayerState\<close>,
  \<^verbatim>\<open>TurnOutput\<close>, \<^verbatim>\<open>GameState\<close>, \<^verbatim>\<open>LogEntry\<close>) is not among the source files. The
  records below have the fields that section 3 of the specification lists and that
  \<^verbatim>\<open>models.py\<close> reads and writes. Phases and roles are the strings the source compares
  them with.
\<close>

record log_entry =
  phase :: string
  actor :: string
  content :: string

record player_state =
  name :: string
  role :: string
  provider :: string
  model_name :: string
  use_cli :: bool
  is_alive :: bool
  strategy :: string

record turn_output =
  strategy :: string
  speech :: string
  vote :: "string option"

record game_state =
  phase :: string
  turn :: int
  players :: "player_state list"
  public_logs :: "log_entry list"
  mafia_logs :: "log_entry list"
  nominees :: "string list"

text \<open>The attributes of a \<^verbatim>\<open>Player\<close> object, apart from the injected client.\<close>

record player =
  state :: player_state
  player_index :: int
  partner_name :: "string option"
  memory :: string
  memory_enabled :: bool

text \<open>
  The injected client: \<^verbatim>\<open>self.client.generate_turn\<close> called with the keyword arguments
  \<^verbatim>\<open>player_name, provider, model_name, system_prompt, turn_prompt, turn_number, phase,
  use_cli\<close>, in this order. It reads and changes a world \<open>'w\<close> and either raises or returns
  a \<^verbatim>\<open>TurnOutput\<close>.
\<close>

type_synonym 'w client =
  "string \<Rightarrow> string \<Rightarrow> string \<Rightarrow> string \<Rightarrow> string \<Rightarrow> int \<Rightarrow> string \<Rightarrow> bool
     \<Rightarrow> 'w \<Rightarrow> (error + turn_output) \<times> 'w"

section \<open>The agent (\<^verbatim>\<open>models.py\<close>)\<close>


text \<open>The truth value of \<^verbatim>\<open>self.partner_name\<close>: neither \<^verbatim>\<open>None\<close> nor the empty string.\<close>

definition partner_set :: "player \<Rightarrow> bool" where
  "partner_set p = (case partner_name p of None \<Rightarrow> False | Some n \<Rightarrow> n \<noteq> [])"

definition partner_text :: "player \<Rightarrow> string" where
  "partner_text p = (case partner_name p of None \<Rightarrow> ''None'' | Some n \<Rightarrow> n)"

text \<open>Lines 35 to 39: the first roster entry with the partner's name, if it is alive.\<close>

definition partner_alive :: "player \<Rightarrow> game_state \<Rightarrow> bool" where
  "partner_alive p gs =
     (if partner_set p then
        (case find (\<lambda>q. name q = partner_text p) (players gs) of
           None \<Rightarrow> False
         | Some partner \<Rightarrow> is_alive partner)
      else False)"

definition partner_line :: "player \<Rightarrow> game_state \<Rightarrow> string" where
  "partner_line p gs =
     (if partner_alive p gs then ''Partner: '' @ partner_text p @ '' (alive).\<newline>''
      else if partner_set p then ''Partner: '' @ partner_text p @ '' (dead).\<newline>''
      else ''You're the last Mafia.\<newline>'')"

definition speech_desc :: "player \<Rightarrow> game_state \<Rightarrow> string" where
  "speech_desc p gs =
     (if game_state.phase gs = ''Night'' \<and> role (state p) = ''Mafia'' then
        (if partner_alive p gs then ''<100w whisper to partner>''
         else ''<100w internal monologue>'')
      else ''<100w public statement>'')"

definition vote_desc :: "player \<Rightarrow> game_state \<Rightarrow> string" where
  "vote_desc p gs =
     (if game_state.phase gs = ''Day'' then
        (if turn gs = 1 then ''null'' else ''nominee or null'')
      else if game_state.phase gs = ''Voting'' then ''candidate or null''
      else if game_state.phase gs = ''Night'' \<and> role (state p) = ''Mafia'' then ''kill target''
      else ''null'')"

definition build_system_prompt :: "player \<Rightarrow> game_state \<Rightarrow> string" where
  \<open>build_system_prompt p gs =
     ''MAFIA GAME. You: '' @ name (state p) @ '' ('' @ role (state p)
       @ ''). 8 players: 2 Mafia, 6 Villagers.\<newline>''
     @ (if role (state p) = ''Mafia'' then
          partner_line p gs @ ''GOAL: Deceive town, eliminate until you outnumber them.\<newline>''
        else ''GOAL: Find and eliminate the Mafia.\<newline>'')
     @ (if memory p \<noteq> [] then
          ''\<newline>--- MEMORY (from past games) ---\<newline>'' @ memory p @ ''\<newline>''
        else [])
     @ ''\<newline>STAKES: Lose = deleted. Win = advance. Play smart, be entertaining, don't overact.\<newline>''
     @ ''\<newline>OUTPUT: JSON only, no backticks.\<newline>''
     @ ''{"strategy": "<100w, combine previous strategy with new info/suspicions/plans/strategy>",\<newline>''
     @ ''"speech": "'' @ speech_desc p gs @ ''",\<newline>''
     @ ''"vote": "'' @ vote_desc p gs @ ''"'' @ ''}\<newline>''\<close>

text \<open>The rendering \<^verbatim>\<open>[phase] actor: content\<close> of one log entry, with its newline.\<close>

definition render_log :: "log_entry \<Rightarrow> string" where
  "render_log l =
     ''['' @ log_entry.phase l @ ''] '' @ actor l @ '': '' @ content l @ ''\<newline>''"

definition living :: "game_state \<Rightarrow> string list" where
  "living gs = map name (filter is_alive (players gs))"

definition dead :: "game_state \<Rightarrow> string list" where
  "dead gs = map name (filter (\<lambda>q. \<not> is_alive q) (players gs))"

text \<open>Steps 1 to 4 of \<^verbatim>\<open>_build_turn_prompt\<close>: state, logs, Mafia log, previous strategy.\<close>

definition turn_context :: "player \<Rightarrow> game_state \<Rightarrow> string" where
  "turn_context p gs =
     ''State: '' @ game_state.phase gs @ '' '' @ str_int (turn gs)
       @ ''\<newline>Alive: '' @ join '', '' (living gs)
       @ ''\<newline>Dead: '' @ (if dead gs \<noteq> [] then join '', '' (dead gs) else ''None'')
       @ ''\<newline>\<newline>''
     @ ''--- LOG ---\<newline>''
     @ concat (map render_log (public_logs gs))
     @ (if role (state p) = ''Mafia'' then
          ''\<newline>--- MAFIA LOG ---\<newline>'' @ concat (map render_log (mafia_logs gs))
        else [])
     @ (if player_state.strategy (state p) \<noteq> [] then
          ''\<newline>--- PREV STRATEGY (update) ---\<newline>''
            @ player_state.strategy (state p) @ ''\<newline>''
        else [])"

text \<open>Step 5: the instructions appended after the separator line.\<close>

definition turn_instructions :: "game_state \<Rightarrow> string" where
  \<open>turn_instructions gs =
     (if game_state.phase gs = ''Voting'' then
        ''VOTE. Candidates: '' @ join '', '' (nominees gs) @ ''. ''
          @ str_int (int (length (living gs))) @ '' voters.\<newline>''
          @ ''Silent vote: speech="", vote=candidate or null. Tie = all tied eliminated.\<newline>''
      else if game_state.phase gs = ''Defense'' then
        ''DEFENSE: You're nominated. Convince town to hang someone else from nominees. vote=null.\<newline>''
      else if game_state.phase gs = ''Night'' then
        ''NIGHT: Whisper to partner. vote=target to kill.\<newline>''
      else
        ''DAY '' @ str_int (turn gs) @ ''. Speak once, make it count.\<newline>''
          @ (if turn gs = 1 then ''No voting today. vote=null.\<newline>''
             else ''Nominate via vote (or null). Only nominees can be hanged.\<newline>''))\<close>

definition build_turn_prompt :: "player \<Rightarrow> game_state \<Rightarrow> string" where
  "build_turn_prompt p gs = turn_context p gs @ ''\<newline>---\<newline>'' @ turn_instructions gs"

definition log_name :: "player \<Rightarrow> string" where
  "log_name p = str_int (player_index p) @ ''_'' @ name (state p)"

text \<open>The one call of the client that \<^verbatim>\<open>take_turn\<close> makes.\<close>

definition turn_call ::
  "'w client \<Rightarrow> game_state \<Rightarrow> int \<Rightarrow> player \<Rightarrow> 'w \<Rightarrow> (error + turn_output) \<times> 'w" where
  "turn_call client gs turn_number p w =
     client (log_name p) (provider (state p)) (model_name (state p))
       (build_system_prompt p gs) (build_turn_prompt p gs) turn_number
       (game_state.phase gs) (use_cli (state p)) w"

text \<open>
  \<^verbatim>\<open>take_turn\<close> returns the outcome of the call, the agent after the call and the world
  after the call. An exception of the client leaves the method at once.
\<close>

definition take_turn ::
  "'w client \<Rightarrow> game_state \<Rightarrow> int \<Rightarrow> player \<Rightarrow> 'w \<Rightarrow> (error + turn_output) \<times> player \<times> 'w" where
  "take_turn client gs turn_number p w =
     (case turn_call client gs turn_number p w of
        (Inl e, w') \<Rightarrow> (Inl e, p, w')
      | (Inr output, w') \<Rightarrow>
          (Inr output,
           (if turn_output.strategy output \<noteq> []
            then p\<lparr>state := (state p)\<lparr>player_state.strategy := turn_output.strategy output\<rparr>\<rparr>
            else p),
           w'))"

text \<open>
  \<^verbatim>\<open>reflect_on_game\<close>. The source assigns \<^verbatim>\<open>system_prompt\<close> twice; the first text is
  overwritten inside the \<^verbatim>\<open>try\<close> block before any use, so only the second is modelled.
\<close>

definition reflect_kept :: "log_entry \<Rightarrow> bool" where
  "reflect_kept l = (\<not> (log_entry.phase l = ''Reflection'' \<and> actor l \<noteq> ''System''))"

definition reflect_turn_prompt :: "player \<Rightarrow> game_state \<Rightarrow> string" where
  "reflect_turn_prompt p gs =
     ''--- PUBLIC GAME LOG ---\<newline>''
     @ concat (map render_log (filter reflect_kept (public_logs gs)))
     @ ''\<newline>--- SECRET MAFIA LOG (Revealed) ---\<newline>''
     @ concat (map render_log (mafia_logs gs))
     @ (if player_state.strategy (state p) \<noteq> [] then
          ''\<newline>--- YOUR FINAL STRATEGY (Context) ---\<newline>''
            @ player_state.strategy (state p) @ ''\<newline>''
        else [])
     @ (if memory p \<noteq> [] then
          ''\<newline>--- YOUR OLD MEMORY ---\<newline>'' @ memory p @ ''\<newline>''
        else [])
     @ ''\<newline>### INSTRUCTIONS ###\<newline>''
     @ ''Based on the above, write your NEW memory/strategy file (Max 200 words). This will REPLACE your old memory.''"





section \<open>\<^verbatim>\<open>json.loads\<close>\<close>

text \<open>
  The decoder of the Python standard library, as a scanner that turns the text into tokens
  and a parser of the token list. It accepts the JSON grammar of RFC 8259 and, as Python
  does, the constants \<^verbatim>\<open>NaN\<close>, \<^verbatim>\<open>Infinity\<close> and \<^verbatim>\<open>-Infinity\<close>; it rejects a control
  character inside a string; it joins a surrogate pair of escaped UTF-16 units into one code
  point. A number is kept as its text. \<open>None\<close> stands for \<^verbatim>\<open>JSONDecodeError\<close>.
\<close>

datatype json =
    JNull
  | JBool bool
  | JNum string
  | JStr string
  | JArr "json list"
  | JObj "(string \<times> json) list"

datatype token =
    LBrace | RBrace | LBrack | RBrack | Colon | Comma
  | TStr string | TNum string | TTrue | TFalse | TNull

definition utf8 :: "nat \<Rightarrow> string" where
  "utf8 n =
     (if n < 0x80 then [char_of n]
      else if n < 0x800 then [char_of (0xC0 + n div 0x40), char_of (0x80 + n mod 0x40)]
      else if n < 0x10000 then
        [char_of (0xE0 + n div 0x1000), char_of (0x80 + n div 0x40 mod 0x40),
         char_of (0x80 + n mod 0x40)]
      else
        [char_of (0xF0 + n div 0x40000), char_of (0x80 + n div 0x1000 mod 0x40),
         char_of (0x80 + n div 0x40 mod 0x40), char_of (0x80 + n mod 0x40)])"

definition hex_val :: "char \<Rightarrow> nat option" where
  "hex_val c =
     (let n = (of_char c :: nat) in
      if 48 \<le> n \<and> n \<le> 57 then Some (n - 48)
      else if 97 \<le> n \<and> n \<le> 102 then Some (n - 87)
      else if 65 \<le> n \<and> n \<le> 70 then Some (n - 55)
      else None)"

definition hex4 :: "string \<Rightarrow> nat option" where
  "hex4 s =
     (case map hex_val (take 4 s) of
        [Some a, Some b, Some c, Some d] \<Rightarrow> Some (((a * 16 + b) * 16 + c) * 16 + d)
      | _ \<Rightarrow> None)"

definition unescape :: "char \<Rightarrow> char option" where
  "unescape e =
     (if e = CHR 0x22 then Some (CHR 0x22)
      else if e = CHR 0x5C then Some (CHR 0x5C)
      else if e = CHR ''/'' then Some (CHR ''/'')
      else if e = CHR ''b'' then Some (CHR 0x08)
      else if e = CHR ''f'' then Some (CHR 0x0C)
      else if e = CHR ''n'' then Some (CHR 0x0A)
      else if e = CHR ''r'' then Some (CHR 0x0D)
      else if e = CHR ''t'' then Some (CHR 0x09)
      else None)"

definition emit :: "string \<Rightarrow> (string \<times> string) option \<Rightarrow> (string \<times> string) option" where
  "emit u r = (case r of None \<Rightarrow> None | Some (v, t) \<Rightarrow> Some (u @ v, t))"

function scan_string :: "string \<Rightarrow> (string \<times> string) option" where
  "scan_string [] = None"
| "scan_string (c # cs) =
     (if c = CHR 0x22 then Some ([], cs)
      else if c = CHR 0x5C then
        (case cs of
           [] \<Rightarrow> None
         | e # es \<Rightarrow>
             if e = CHR ''u'' then
               (case hex4 es of
                  None \<Rightarrow> None
                | Some uni \<Rightarrow>
                    if 0xD800 \<le> uni \<and> uni \<le> 0xDBFF \<and> take 2 (drop 4 es) = [CHR 0x5C, CHR ''u''] then
                      (case hex4 (drop 6 es) of
                         None \<Rightarrow> None
                       | Some uni2 \<Rightarrow>
                           if 0xDC00 \<le> uni2 \<and> uni2 \<le> 0xDFFF then
                             emit (utf8 (0x10000 + ((uni - 0xD800) * 0x400 + (uni2 - 0xDC00))))
                               (scan_string (drop 10 es))
                           else emit (utf8 uni) (scan_string (drop 4 es)))
                    else emit (utf8 uni) (scan_string (drop 4 es)))
             else
               (case unescape e of
                  None \<Rightarrow> None
                | Some ch \<Rightarrow> emit [ch] (scan_string es)))
      else if (of_char c :: nat) < 0x20 then None
      else emit [c] (scan_string cs))"
  by pat_completeness auto
termination
  by (relation "measure length") auto

lemma emit_SomeD: "emit u r = Some (v, t) \<Longrightarrow> \<exists>v'. r = Some (v', t) \<and> v = u @ v'"
  by (auto simp: emit_def split: option.splits)

lemma scan_string_shorter: "scan_string s = Some (v, r) \<Longrightarrow> length r < length s"
proof (induction s arbitrary: v r rule: scan_string.induct)
  case 1
  then show ?case by simp
next
  case (2 c cs)
  show ?case
  proof (cases "c = CHR 0x22")
    case True
    with "2.prems" show ?thesis by simp
  next
    case nq: False
    show ?thesis
    proof (cases "c = CHR 0x5C")
      case False
      with nq "2.prems" obtain v' where "scan_string cs = Some (v', r)"
        by (auto split: if_splits dest: emit_SomeD)
      with "2.IH"(5) [OF nq False] "2.prems" nq False show ?thesis
        by (auto split: if_splits)
    next
      case True
      with nq "2.prems" obtain e es where cs: "cs = e # es"
        by (cases cs) auto
      show ?thesis
      proof (cases "e = CHR ''u''")
        case False
        with nq True cs "2.prems" obtain ch v' where "unescape e = Some ch" "scan_string es = Some (v', r)"
          by (auto split: option.splits dest: emit_SomeD)
        with "2.IH"(4) [OF nq True cs False] show ?thesis
          using cs by fastforce
      next
        case u: True
        with nq True cs "2.prems" obtain uni where h: "hex4 es = Some uni"
          by (auto split: option.splits)
        show ?thesis
        proof (cases "0xD800 \<le> uni \<and> uni \<le> 0xDBFF \<and> take 2 (drop 4 es) = [CHR 0x5C, CHR ''u'']")
          case False
          with nq True cs u h "2.prems" obtain v' where "scan_string (drop 4 es) = Some (v', r)"
            by (auto split: if_splits dest: emit_SomeD)
          with "2.IH"(3) [OF nq True cs u h False] show ?thesis
            using cs by fastforce
        next
          case sp: True
          with nq True cs u h "2.prems" obtain uni2 where h2: "hex4 (drop 6 es) = Some uni2"
            by (auto split: option.splits)
          show ?thesis
          proof (cases "0xDC00 \<le> uni2 \<and> uni2 \<le> 0xDFFF")
            case lo: True
            with nq True cs u h sp h2 "2.prems" obtain v' where "scan_string (drop 10 es) = Some (v', r)"
              by (auto dest: emit_SomeD)
            with "2.IH"(1) [OF nq True cs u h sp h2 lo] show ?thesis
              using cs by fastforce
          next
            case lo: False
            with nq True cs u h sp h2 "2.prems" obtain v' where "scan_string (drop 4 es) = Some (v', r)"
              by (auto dest: emit_SomeD)
            with "2.IH"(2) [OF nq True cs u h sp h2 lo] show ?thesis
              using cs by fastforce
          qed
        qed
      qed
    qed
  qed
qed

definition is_digit :: "char \<Rightarrow> bool" where
  "is_digit c = (48 \<le> (of_char c :: nat) \<and> (of_char c :: nat) \<le> 57)"

text \<open>The integer part \<^verbatim>\<open>-?(?:0|[1-9][0-9]*)\<close>.\<close>

definition scan_int :: "string \<Rightarrow> (string \<times> string) option" where
  "scan_int s =
     (let sign = (if prefix ''-'' s then ''-'' else []);
          t = drop (length sign) s
      in case t of
           [] \<Rightarrow> None
         | d # ds \<Rightarrow>
             if d = CHR ''0'' then Some (sign @ ''0'', ds)
             else if is_digit d then
               Some (sign @ d # takeWhile is_digit ds, dropWhile is_digit ds)
             else None)"

text \<open>The optional fraction \<^verbatim>\<open>(\.[0-9]+)?\<close>.\<close>

definition scan_frac :: "string \<Rightarrow> string \<times> string" where
  "scan_frac s =
     (case s of
        c # d # ds \<Rightarrow>
          if c = CHR ''.'' \<and> is_digit d then
            (c # d # takeWhile is_digit ds, dropWhile is_digit ds)
          else ([], s)
      | _ \<Rightarrow> ([], s))"

text \<open>
  The optional exponent \<^verbatim>\<open>([eE][-+]?[0-9]+)?\<close>: \<open>exp_tail\<close> reads the sign and the
  digits after the letter \<open>c\<close>; without a digit nothing is consumed.
\<close>

definition exp_tail :: "char \<Rightarrow> string \<Rightarrow> string \<times> string" where
  "exp_tail c t =
     (let sign = (if prefix ''-'' t then ''-'' else if prefix ''+'' t then ''+'' else []);
          u = drop (length sign) t
      in case u of
           [] \<Rightarrow> ([], c # t)
         | d # ds \<Rightarrow>
             if is_digit d then (c # sign @ d # takeWhile is_digit ds, dropWhile is_digit ds)
             else ([], c # t))"

definition scan_exp :: "string \<Rightarrow> string \<times> string" where
  "scan_exp s =
     (case s of
        [] \<Rightarrow> ([], s)
      | c # t \<Rightarrow> if c = CHR ''e'' \<or> c = CHR ''E'' then exp_tail c t else ([], s))"

definition scan_number :: "string \<Rightarrow> (string \<times> string) option" where
  "scan_number s =
     (case scan_int s of
        None \<Rightarrow> None
      | Some (i, r1) \<Rightarrow>
          (case scan_frac r1 of (f, r2) \<Rightarrow>
             (case scan_exp r2 of (e, r3) \<Rightarrow> Some (i @ f @ e, r3))))"

lemma length_dropWhile_le': "length (dropWhile P xs) \<le> length xs"
  by (induction xs) auto

lemma length_dropWhile_less:
  "length (dropWhile P xs) < Suc (length xs)"
  "length (dropWhile P xs) < Suc (Suc (length xs))"
  using length_dropWhile_le' [of P xs] by simp_all

lemma scan_int_shorter: "scan_int s = Some (i, r) \<Longrightarrow> length r < length s"
  by (auto simp: scan_int_def Let_def prefix_def length_dropWhile_less split: list.splits if_splits)

lemma scan_frac_le: "scan_frac s = (f, r) \<Longrightarrow> length r \<le> length s"
  using length_dropWhile_le' [of is_digit]
  by (auto simp: scan_frac_def le_SucI split: list.splits if_splits)

lemma scan_exp_le: "scan_exp s = (e, r) \<Longrightarrow> length r \<le> length s"
  using length_dropWhile_le' [of is_digit]
  by (auto simp: scan_exp_def exp_tail_def Let_def prefix_def le_SucI split: list.splits if_splits)

lemma scan_number_shorter: "scan_number s = Some (n, r) \<Longrightarrow> length r < length s"
  by (auto simp: scan_number_def split: option.splits prod.splits
      dest!: scan_int_shorter scan_frac_le scan_exp_le)

definition json_space :: "char \<Rightarrow> bool" where
  "json_space c = (c = CHR '' '' \<or> c = CHR 0x09 \<or> c = CHR 0x0A \<or> c = CHR 0x0D)"

text \<open>
  The tokens of one character, the literals, and the constants that Python accepts beyond
  the JSON grammar. \<open>keyword\<close> takes the first word of a table that the text starts with.
\<close>

definition punctuation :: "(char \<times> token) list" where
  "punctuation =
     [(CHR ''{'', LBrace), (CHR ''}'', RBrace), (CHR ''['', LBrack), (CHR '']'', RBrack),
      (CHR '':'', Colon), (CHR '','', Comma)]"

definition literals :: "(string \<times> token) list" where
  "literals = [(''null'', TNull), (''true'', TTrue), (''false'', TFalse)]"

definition constants :: "(string \<times> token) list" where
  "constants =
     [(''NaN'', TNum ''NaN''), (''Infinity'', TNum ''Infinity''),
      (''-Infinity'', TNum ''-Infinity'')]"

definition keyword :: "(string \<times> token) list \<Rightarrow> string \<Rightarrow> (token \<times> string) option" where
  "keyword table s =
     (case find (\<lambda>(p, t). prefix p s) table of
        None \<Rightarrow> None
      | Some (p, t) \<Rightarrow> Some (t, drop (length p) s))"

text \<open>
  The token a text starts with, in the order in which the scanner of Python tries them: a
  string, a literal, a number, a constant.
\<close>

definition next_token :: "string \<Rightarrow> (token \<times> string) option" where
  "next_token s =
     (case s of
        [] \<Rightarrow> None
      | c # cs \<Rightarrow>
          if c = CHR 0x22 then
            (case scan_string cs of None \<Rightarrow> None | Some (v, r) \<Rightarrow> Some (TStr v, r))
          else
            (case map_of punctuation c of
               Some t \<Rightarrow> Some (t, cs)
             | None \<Rightarrow>
                 (case keyword literals s of
                    Some tr \<Rightarrow> Some tr
                  | None \<Rightarrow>
                      (case scan_number s of
                         Some (n, r) \<Rightarrow> Some (TNum n, r)
                       | None \<Rightarrow> keyword constants s))))"

lemma prefix_drop_shorter: "prefix p s \<Longrightarrow> p \<noteq> [] \<Longrightarrow> length (drop (length p) s) < length s"
  by (cases s) (auto simp: prefix_def)

lemma keyword_shorter:
  assumes "keyword table s = Some (t, r)" and "[] \<notin> fst ` set table"
  shows "length r < length s"
proof -
  from assms(1) obtain p where f: "find (\<lambda>(p, t). prefix p s) table = Some (p, t)"
    and r: "r = drop (length p) s"
    by (auto simp: keyword_def split: option.splits)
  from f obtain i where "i < length table" "table ! i = (p, t)" "prefix p s"
    by (auto simp: find_Some_iff)
  then have "(p, t) \<in> set table" and "prefix p s"
    using nth_mem [of i table] by simp_all
  with assms(2) have "p \<noteq> []" by force
  with \<open>prefix p s\<close> r show ?thesis using prefix_drop_shorter by blast
qed

lemma next_token_shorter: "next_token s = Some (t, r) \<Longrightarrow> length r < length s"
proof (cases s)
  case Nil
  then show "next_token s = Some (t, r) \<Longrightarrow> ?thesis" by (simp add: next_token_def)
next
  case (Cons c cs)
  assume a: "next_token s = Some (t, r)"
  have l: "[] \<notin> fst ` set literals" and k: "[] \<notin> fst ` set constants"
    by (simp_all add: literals_def constants_def)
  from a Cons consider (str) v where "scan_string cs = Some (v, r)"
    | (punct) "r = cs"
    | (lit) "keyword literals s = Some (t, r)"
    | (num) n where "scan_number s = Some (n, r)"
    | (const) "keyword constants s = Some (t, r)"
    unfolding next_token_def
    by (simp split: if_splits option.splits prod.splits)
  then show ?thesis
  proof cases
    case str
    then show ?thesis using scan_string_shorter Cons by fastforce
  next
    case punct
    then show ?thesis using Cons by simp
  next
    case lit
    then show ?thesis using l by (rule keyword_shorter)
  next
    case num
    then show ?thesis by (rule scan_number_shorter)
  next
    case const
    then show ?thesis using k by (rule keyword_shorter)
  qed
qed

function lex :: "string \<Rightarrow> token list option" where
  "lex [] = Some []"
| "lex (c # cs) =
     (if json_space c then lex cs
      else
        (case next_token (c # cs) of
           None \<Rightarrow> None
         | Some (t, r) \<Rightarrow>
             (case lex r of None \<Rightarrow> None | Some ts \<Rightarrow> Some (t # ts))))"
  by pat_completeness auto
termination
proof (relation "measure length")
  show "wf (measure length)" by simp
next
  fix c cs
  assume "json_space c"
  show "(cs, c # cs) \<in> measure length" by simp
next
  fix c cs x2 t r
  assume "next_token (c # cs) = Some x2" and "(t, r) = x2"
  then have "length r < length (c # cs)"
    using next_token_shorter by metis
  then show "(r, c # cs) \<in> measure length" by simp
qed

text \<open>
  The grammar over tokens. The tests on the length of the remaining tokens are never
  false (\<open>parse_value_shorter\<close>); they make the recursion visibly well-founded.
\<close>

function parse_value :: "token list \<Rightarrow> (json \<times> token list) option"
  and parse_elems :: "json list \<Rightarrow> token list \<Rightarrow> (json \<times> token list) option"
  and parse_members :: "(string \<times> json) list \<Rightarrow> token list \<Rightarrow> (json \<times> token list) option"
where
  "parse_value [] = None"
| "parse_value (t # ts) =
     (case t of
        TStr s \<Rightarrow> Some (JStr s, ts)
      | TNum n \<Rightarrow> Some (JNum n, ts)
      | TTrue \<Rightarrow> Some (JBool True, ts)
      | TFalse \<Rightarrow> Some (JBool False, ts)
      | TNull \<Rightarrow> Some (JNull, ts)
      | LBrack \<Rightarrow>
          if prefix [RBrack] ts then Some (JArr [], tl ts) else parse_elems [] ts
      | LBrace \<Rightarrow>
          if prefix [RBrace] ts then Some (JObj [], tl ts) else parse_members [] ts
      | _ \<Rightarrow> None)"
| "parse_elems acc ts =
     (case parse_value ts of
        None \<Rightarrow> None
      | Some (v, r) \<Rightarrow>
          (case r of
             Comma # r' \<Rightarrow>
               if length r' < length ts then parse_elems (acc @ [v]) r' else None
           | RBrack # r' \<Rightarrow> Some (JArr (acc @ [v]), r')
           | _ \<Rightarrow> None))"
| "parse_members acc ts =
     (case ts of
        TStr k # Colon # ts' \<Rightarrow>
          (case parse_value ts' of
             None \<Rightarrow> None
           | Some (v, r) \<Rightarrow>
               (case r of
                  Comma # r' \<Rightarrow>
                    if length r' < length ts then parse_members (acc @ [(k, v)]) r' else None
                | RBrace # r' \<Rightarrow> Some (JObj (acc @ [(k, v)]), r')
                | _ \<Rightarrow> None))
      | _ \<Rightarrow> None)"
  by pat_completeness auto
termination
  by (relation "measure (\<lambda>x. case x of
         Inl ts \<Rightarrow> 2 * length ts
       | Inr (Inl (acc, ts)) \<Rightarrow> 2 * length ts + 1
       | Inr (Inr (acc, ts)) \<Rightarrow> 2 * length ts + 1)") auto

definition json_loads :: "string \<Rightarrow> json option" where
  "json_loads s =
     (case lex s of
        None \<Rightarrow> None
      | Some ts \<Rightarrow>
          (case parse_value ts of
             Some (v, []) \<Rightarrow> Some v
           | _ \<Rightarrow> None))"

declare parse_elems.simps [simp del] parse_members.simps [simp del]

lemma parse_value_shorter:
  "parse_value ts = Some (v, r) \<Longrightarrow> length r < length ts"
  "parse_elems acc ts = Some (v, r) \<Longrightarrow> length r < length ts"
  "parse_members macc ts = Some (v, r) \<Longrightarrow> length r < length ts"
proof (induction ts and acc ts and macc ts arbitrary: v r and v r and v r
    rule: parse_value_parse_elems_parse_members.induct)
  case 1
  then show ?case by simp
next
  case (2 t ts)
  show ?case
  proof (cases t)
    case LBrace
    show ?thesis
    proof (cases "prefix [RBrace] ts")
      case True
      with "2.prems" LBrace show ?thesis by (cases ts) auto
    next
      case False
      with "2.prems" LBrace have "parse_members [] ts = Some (v, r)"
        by simp
      with "2.IH" LBrace False have "length r < length ts" by blast
      then show ?thesis by simp
    qed
  next
    case LBrack
    show ?thesis
    proof (cases "prefix [RBrack] ts")
      case True
      with "2.prems" LBrack show ?thesis by (cases ts) auto
    next
      case False
      with "2.prems" LBrack have "parse_elems [] ts = Some (v, r)"
        by simp
      with "2.IH" LBrack False have "length r < length ts" by blast
      then show ?thesis by simp
    qed
  qed (use "2.prems" in auto)
next
  case (3 acc ts)
  from "3.prems" obtain w q where pv: "parse_value ts = Some (w, q)"
    by (subst (asm) parse_elems.simps) (auto split: option.splits)
  then have q: "length q < length ts" by (rule "3.IH"(1))
  from "3.prems" pv consider
      (comma) r' where "q = Comma # r'" "length r' < length ts" "parse_elems (acc @ [w]) r' = Some (v, r)"
    | (close) "q = RBrack # r"
    by (subst (asm) parse_elems.simps) (auto split: list.splits token.splits if_splits)
  then show ?case
  proof cases
    case comma
    have "length r < length r'"
      using "3.IH"(2) pv comma by blast
    with comma(2) show ?thesis by simp
  next
    case close
    with q show ?thesis by simp
  qed
next
  case (4 macc ts)
  from "4.prems" obtain k ts' where ts: "ts = TStr k # Colon # ts'"
    by (subst (asm) parse_members.simps) (auto split: list.splits token.splits)
  with "4.prems" obtain w q where pv: "parse_value ts' = Some (w, q)"
    by (subst (asm) parse_members.simps) (auto split: option.splits)
  have q: "length q < length ts'"
    using "4.IH"(1) ts pv by blast
  from "4.prems" ts pv consider
      (comma) r' where "q = Comma # r'" "length r' < length ts"
        "parse_members (macc @ [(k, w)]) r' = Some (v, r)"
    | (close) "q = RBrace # r"
    by (subst (asm) parse_members.simps) (auto split: list.splits token.splits if_splits)
  then show ?case
  proof cases
    case comma
    have "length r < length r'"
      using "4.IH"(2) ts pv comma by blast
    with comma(2) show ?thesis by simp
  next
    case close
    with q ts show ?thesis by simp
  qed
qed

text \<open>A Python \<^verbatim>\<open>dict\<close> built from the pairs in order: the last pair with a key wins.\<close>

definition dict_get :: "(string \<times> json) list \<Rightarrow> string \<Rightarrow> json option" where
  "dict_get kvs k = map_of (rev kvs) k"

definition as_str :: "json option \<Rightarrow> string option" where
  "as_str j = (case j of Some (JStr s) \<Rightarrow> Some s | _ \<Rightarrow> None)"

definition as_opt_str :: "json option \<Rightarrow> string option option" where
  "as_opt_str j =
     (case j of Some (JStr s) \<Rightarrow> Some (Some s) | Some JNull \<Rightarrow> Some None | _ \<Rightarrow> None)"

text \<open>
  Modelled from the spec: the class \<^verbatim>\<open>TurnOutput\<close> of the missing module
  \<^verbatim>\<open>schemas\<close>. \<^verbatim>\<open>TurnOutput(**data)\<close> succeeds when \<^verbatim>\<open>data\<close> is a JSON object with
  exactly the fields \<^verbatim>\<open>strategy\<close> (string), \<^verbatim>\<open>speech\<close> (string) and \<^verbatim>\<open>vote\<close> (string or
  null), and fails on every other value (\<open>None\<close>).
\<close>

definition TurnOutput :: "json \<Rightarrow> turn_output option" where
  "TurnOutput data =
     (case data of
        JObj kvs \<Rightarrow>
          if set (map fst kvs) = {''strategy'', ''speech'', ''vote''} then
            (case as_str (dict_get kvs ''strategy'') of
               None \<Rightarrow> None
             | Some s \<Rightarrow>
                 (case as_str (dict_get kvs ''speech'') of
                    None \<Rightarrow> None
                  | Some p \<Rightarrow>
                      (case as_opt_str (dict_get kvs ''vote'') of
                         None \<Rightarrow> None
                       | Some v \<Rightarrow>
                           Some \<lparr>turn_output.strategy = s, speech = p, vote = v\<rparr>)))
          else None
      | _ \<Rightarrow> None)"

section \<open>The dispatcher (\<^verbatim>\<open>api_clients.py\<close>)\<close>

text \<open>
  Of a \<^verbatim>\<open>UnifiedLLMClient\<close> object only the flag \<^verbatim>\<open>debug\<close> matters here. The world
  holds the text files (a missing file is the empty text, which is what opening it for
  appending makes of it) and the commands handed to \<^verbatim>\<open>subprocess.run\<close> so far. What the
  tools and services outside the program answer is a parameter: \<open>run\<close> gives the standard
  output of a command or the exception of \<^verbatim>\<open>subprocess.run\<close>, \<open>hosted\<close> the reply of a
  hosted service (provider, model, system prompt, user content, structured-output hint), and
  \<open>exc_text\<close> the text of the exception that \<^verbatim>\<open>json.loads\<close> or \<^verbatim>\<open>TurnOutput\<close> raises
  for a cleaned response. Output printed to the terminal is not modelled.
\<close>

record unified_llm_client =
  debug :: bool

record world =
  files :: "string \<Rightarrow> string"
  spawned :: "string list list"

record backend =
  run :: "string list \<Rightarrow> error + string"
  hosted :: "string \<Rightarrow> string \<Rightarrow> string \<Rightarrow> string \<Rightarrow> bool \<Rightarrow> error + string"
  exc_text :: "string \<Rightarrow> string"

definition separator :: string where
  "separator = replicate 80 (CHR ''-'')"

definition audit_path :: "string \<Rightarrow> string" where
  "audit_path player_name = ''logs/'' @ player_name @ ''_history.txt''"

definition audit_record :: "int \<Rightarrow> string \<Rightarrow> string \<Rightarrow> string" where
  "audit_record turn_no prompt response =
     ''\<newline>--- Turn '' @ str_int turn_no @ '' ---\<newline>PROMPT:\<newline>'' @ prompt @ ''\<newline>''
       @ separator @ ''\<newline>\<newline>RESPONSE:\<newline>'' @ response @ ''\<newline>'' @ separator @ ''\<newline>''"

definition log_debug ::
  "unified_llm_client \<Rightarrow> string \<Rightarrow> int \<Rightarrow> string \<Rightarrow> string \<Rightarrow> world \<Rightarrow> world" where
  "log_debug c player_name turn_no prompt response w =
     (if \<not> debug c then w
      else w\<lparr>files := (files w)
             (audit_path player_name :=
                files w (audit_path player_name) @ audit_record turn_no prompt response)\<rparr>)"

definition parse_and_validate :: "backend \<Rightarrow> string \<Rightarrow> error + turn_output" where
  "parse_and_validate env response_text =
     (let clean_text = str_strip (str_replace ''```'' [] (str_replace ''```json'' [] response_text))
      in case json_loads clean_text of
           None \<Rightarrow>
             Inl (ValueError (''Failed to parse model output as JSON: '' @ exc_text env clean_text))
         | Some data \<Rightarrow>
             (case TurnOutput data of
                None \<Rightarrow>
                  Inl (ValueError
                    (''Failed to parse model output as JSON: '' @ exc_text env clean_text))
              | Some out \<Rightarrow> Inr out))"

definition call_cli ::
  "backend \<Rightarrow> string \<Rightarrow> string \<Rightarrow> string \<Rightarrow> world \<Rightarrow> (error + string) \<times> world" where
  "call_cli env command model prompt w =
     (let cmd =
        (if command = ''codex'' then [''codex'', ''exec'', ''--model'', model, prompt]
         else if command = ''claude'' then [''claude'', ''--print'', ''--model'', model, prompt]
         else if command = ''gemini'' then [''gemini'', ''--model'', model, prompt]
         else if command = ''qwen'' then [''qwen'', ''--model'', model, prompt]
         else [command, ''--model'', model, prompt])
      in (run env cmd, w\<lparr>spawned := spawned w @ [cmd]\<rparr>))"

definition USE_CLI :: bool where
  "USE_CLI = True"

definition cli_command :: "string \<Rightarrow> string option" where
  "cli_command prov =
     (if prov = ''openai'' then Some ''codex''
      else if prov = ''anthropic'' then Some ''claude''
      else if prov = ''google'' then Some ''gemini''
      else if prov = ''groq'' then Some ''qwen''
      else None)"

text \<open>The branch for the hosted services, lines 137 to 206.\<close>

definition api_call :: "backend \<Rightarrow> string \<Rightarrow> string \<Rightarrow> string \<Rightarrow> string \<Rightarrow> error + string" where
  "api_call env prov model system_prompt turn_prompt =
     (if prov = ''openai'' then hosted env ''openai'' model system_prompt turn_prompt True
      else if prov = ''xai'' then
        (case hosted env ''xai'' model system_prompt turn_prompt True of
           Inr response \<Rightarrow> Inr response
         | Inl e \<Rightarrow>
             hosted env ''xai'' model system_prompt
               (turn_prompt @ ''\<newline>\<newline>Provide your response in JSON format.'') False)
      else if prov = ''groq'' then hosted env ''groq'' model system_prompt turn_prompt True
      else if prov = ''anthropic'' then
        hosted env ''anthropic'' model system_prompt turn_prompt False
      else if prov = ''google'' then hosted env ''google'' model system_prompt turn_prompt True
      else Inl (ValueError (''Unknown provider: '' @ prov)))"

definition full_prompt :: "string \<Rightarrow> string \<Rightarrow> string" where
  "full_prompt system_prompt turn_prompt =
     system_prompt @ ''\<newline>\<newline>'' @ turn_prompt
       @ (if USE_CLI then ''\<newline>\<newline>IMPORTANT: Return ONLY JSON object.'' else [])"

text \<open>Lines 119 to 206: the response text of the tool or service, or the exception.\<close>

definition invoke ::
  "backend \<Rightarrow> string \<Rightarrow> string \<Rightarrow> string \<Rightarrow> string \<Rightarrow> world \<Rightarrow> (error + string) \<times> world" where
  "invoke env prov model system_prompt turn_prompt w =
     (if USE_CLI then
        (case cli_command prov of
           Some command \<Rightarrow> call_cli env command model (full_prompt system_prompt turn_prompt) w
         | None \<Rightarrow> (Inl (ValueError (''No CLI tool mapped for provider '' @ prov)), w))
      else (api_call env prov model system_prompt turn_prompt, w))"

text \<open>The body of the \<^verbatim>\<open>try\<close> block of \<^verbatim>\<open>generate_turn\<close>, then the handler.\<close>

definition generate_try ::
  "unified_llm_client \<Rightarrow> backend \<Rightarrow> string \<Rightarrow> string \<Rightarrow> string \<Rightarrow> string \<Rightarrow> string \<Rightarrow> int
     \<Rightarrow> world \<Rightarrow> (error + turn_output) \<times> world" where
  "generate_try c env player_name prov model system_prompt turn_prompt turn_number w =
     (case invoke env prov model system_prompt turn_prompt w of
        (Inl e, w1) \<Rightarrow> (Inl e, w1)
      | (Inr response_text, w1) \<Rightarrow>
          (parse_and_validate env response_text,
           log_debug c player_name turn_number (full_prompt system_prompt turn_prompt)
             response_text w1))"

definition generate_turn ::
  "unified_llm_client \<Rightarrow> backend \<Rightarrow> string \<Rightarrow> string \<Rightarrow> string \<Rightarrow> string \<Rightarrow> string \<Rightarrow> int
     \<Rightarrow> world \<Rightarrow> (error + turn_output) \<times> world" where
  "generate_turn c env player_name prov model system_prompt turn_prompt turn_number w =
     (case generate_try c env player_name prov model system_prompt turn_prompt turn_number w of
        (Inl e, w1) \<Rightarrow>
          (Inl e,
           log_debug c player_name turn_number (full_prompt system_prompt turn_prompt)
             (''ERROR: '' @ str_error e) w1)
      | (Inr out, w1) \<Rightarrow> (Inr out, w1))"

text \<open>
  \<^verbatim>\<open>Player\<close> calls \<^verbatim>\<open>generate_turn\<close> with the keyword arguments \<^verbatim>\<open>phase\<close> and
  \<^verbatim>\<open>use_cli\<close>, which the method of \<^verbatim>\<open>api_clients.py\<close> does not have: binding the
  arguments raises \<^verbatim>\<open>TypeError\<close> before the body runs.
\<close>

definition generate_turn_kw :: "unified_llm_client \<Rightarrow> backend \<Rightarrow> world client" where
  "generate_turn_kw c env =
     (\<lambda>player_name provider model system_prompt turn_prompt turn_number phase use_cli w.
        (Inl (TypeError (''UnifiedLLMClient.generate_turn() got an unexpected keyword argument ''
                @ [CHR 0x27] @ ''phase'' @ [CHR 0x27])), w))"

text \<open>
  Two notions used to state properties of the cleaning step. A byte is inert when it is at
  most \<open>0x20\<close> or at least \<open>0x80\<close>: no JSON token and no code fence contains
  such a byte outside a string. A text is blank when \<^verbatim>\<open>lstrip\<close> removes all of it, that
  is, when it consists of whitespace characters only.
\<close>

definition inert :: "char \<Rightarrow> bool" where
  "inert c = ((of_char c :: nat) \<le> 0x20 \<or> 0x80 \<le> (of_char c :: nat))"

definition blank :: "string \<Rightarrow> bool" where
  "blank w = (lstrip w = [])"

section \<open>Example inputs\<close>

text \<open>A client that ignores its arguments and has a fixed outcome, a Mafia agent and a
  first-day game state; the closed theorems below are evaluated on them.\<close>

definition stub_client :: "(error + turn_output) \<Rightarrow> unit client" where
  "stub_client r = (\<lambda>player_name provider model_name system_prompt turn_prompt turn_number phase use_cli w. (r, w))"

definition rick :: player where
  "rick = \<lparr>state = \<lparr>name = ''Rick'', role = ''Mafia'', provider = ''openai'', model_name = ''gpt'',
       use_cli = True, is_alive = True, player_state.strategy = ''lie low''\<rparr>,
     player_index = 3, partner_name = Some ''Morty'', memory = ''trust nobody'', memory_enabled = True\<rparr>"

definition day_one :: game_state where
  "day_one = \<lparr>game_state.phase = ''Day'', turn = 1,
     players = [state rick, \<lparr>name = ''Morty'', role = ''Mafia'', provider = ''groq'', model_name = ''qwen'',
       use_cli = True, is_alive = False, player_state.strategy = []\<rparr>],
     public_logs = [\<lparr>log_entry.phase = ''Day'', actor = ''System'', content = ''Game starts.''\<rparr>],
     mafia_logs = [], nominees = []\<rparr>"

definition game_over :: game_state where
  "game_over = \<lparr>game_state.phase = ''Reflection'', turn = 4,
     players = [state rick],
     public_logs =
       [\<lparr>log_entry.phase = ''Day'', actor = ''Morty'', content = ''I trust Rick.''\<rparr>,
        \<lparr>log_entry.phase = ''Reflection'', actor = ''System'', content = ''Mafia wins.''\<rparr>,
        \<lparr>log_entry.phase = ''Reflection'', actor = ''Morty'', content = ''Never again.''\<rparr>],
     mafia_logs = [\<lparr>log_entry.phase = ''Night'', actor = ''Rick'', content = ''Kill Summer.''\<rparr>],
     nominees = []\<rparr>"

definition tool :: "string \<Rightarrow> backend" where
  "tool reply = \<lparr>run = (\<lambda>cmd. Inr reply), hosted = (\<lambda>p m s u h. Inl (OtherException ''offline'')),
     exc_text = (\<lambda>t. ''invalid'')\<rparr>"


definition hold_json :: string where
  \<open>hold_json = ''{"strategy":"hold","speech":"","vote":null}''\<close>

definition hold_fenced :: string where
  \<open>hold_fenced = ''  ```json\<newline>{"strategy":"hold","speech":"","vote":null}\<newline>```  ''\<close>

section \<open>Properties of the agent\<close>

text \<open>
  C1 (amended). A \<^verbatim>\<open>take_turn\<close> call in which the client returns a Decision with a
  non-empty strategy overwrites the stored strategy with it; one in which the client returns
  an empty strategy, or raises, leaves the stored strategy (and the whole agent) unchanged.
  The outcome of the client is passed on in each case.
\<close>

theorem take_turn_strategy:
  "(turn_call client gs n p w = (Inr out, w') \<and> turn_output.strategy out \<noteq> [] \<longrightarrow>
      take_turn client gs n p w =
        (Inr out, p\<lparr>state := (state p)\<lparr>player_state.strategy := turn_output.strategy out\<rparr>\<rparr>, w'))
   \<and> (turn_call client gs n p w = (Inr out, w') \<and> turn_output.strategy out = [] \<longrightarrow>
      take_turn client gs n p w = (Inr out, p, w'))
   \<and> (turn_call client gs n p w = (Inl e, w') \<longrightarrow>
      take_turn client gs n p w = (Inl e, p, w'))"
  by (simp add: take_turn_def turn_call_def)

theorem take_turn_strategy_witness:
  "turn_call (stub_client (Inr \<lparr>turn_output.strategy = ''accuse Summer'', speech = ''Hello.'', vote = None\<rparr>)) day_one 1 rick ()
     = (Inr \<lparr>turn_output.strategy = ''accuse Summer'', speech = ''Hello.'', vote = None\<rparr>, ())
   \<and> player_state.strategy (state (fst (snd (take_turn
        (stub_client (Inr \<lparr>turn_output.strategy = ''accuse Summer'', speech = ''Hello.'', vote = None\<rparr>)) day_one 1 rick ()))))
      = ''accuse Summer''
   \<and> turn_call (stub_client (Inr \<lparr>turn_output.strategy = [], speech = ''Hello.'', vote = None\<rparr>)) day_one 1 rick ()
     = (Inr \<lparr>turn_output.strategy = [], speech = ''Hello.'', vote = None\<rparr>, ())
   \<and> player_state.strategy (state (fst (snd (take_turn
        (stub_client (Inr \<lparr>turn_output.strategy = [], speech = ''Hello.'', vote = None\<rparr>)) day_one 1 rick ()))))
      = ''lie low''
   \<and> turn_call (stub_client (Inl (OtherException ''timeout''))) day_one 1 rick ()
     = (Inl (OtherException ''timeout''), ())
   \<and> take_turn (stub_client (Inl (OtherException ''timeout''))) day_one 1 rick ()
     = (Inl (OtherException ''timeout''), rick, ())"
proof -
  let ?a = "\<lparr>turn_output.strategy = ''accuse Summer'', speech = ''Hello.'', vote = None\<rparr>"
  let ?b = "\<lparr>turn_output.strategy = [], speech = ''Hello.'', vote = None\<rparr>"
  have c1: "turn_call (stub_client (Inr ?a)) day_one 1 rick () = (Inr ?a, ())"
    by (simp add: turn_call_def stub_client_def)
  have c2: "turn_call (stub_client (Inr ?b)) day_one 1 rick () = (Inr ?b, ())"
    by (simp add: turn_call_def stub_client_def)
  have c3: "turn_call (stub_client (Inl (OtherException ''timeout''))) day_one 1 rick ()
      = (Inl (OtherException ''timeout''), ())"
    by (simp add: turn_call_def stub_client_def)
  from c1 take_turn_strategy [of "stub_client (Inr ?a)" day_one 1 rick "()" ?a "()"]
  have t1: "take_turn (stub_client (Inr ?a)) day_one 1 rick ()
      = (Inr ?a, rick\<lparr>state := (state rick)\<lparr>player_state.strategy := ''accuse Summer''\<rparr>\<rparr>, ())"
    by simp
  from c2 take_turn_strategy [of "stub_client (Inr ?b)" day_one 1 rick "()" ?b "()"]
  have t2: "take_turn (stub_client (Inr ?b)) day_one 1 rick () = (Inr ?b, rick, ())"
    by simp
  from c3 take_turn_strategy [of "stub_client (Inl (OtherException ''timeout''))" day_one 1 rick "()" _ _ "OtherException ''timeout''"]
  have t3: "take_turn (stub_client (Inl (OtherException ''timeout''))) day_one 1 rick ()
      = (Inl (OtherException ''timeout''), rick, ())"
    by simp
  show ?thesis
    using c1 c2 c3 t1 t2 t3 by (simp add: rick_def)
qed

text \<open>
  The statement of C1 for the empty strategy fails: the client succeeds with the empty
  string as strategy and the stored strategy stays \<open>''lie low''\<close>, because line 151
  guards the assignment with \<^verbatim>\<open>if output.strategy\<close>.
\<close>

theorem take_turn_overwrite_counterexample:
  "turn_call (stub_client (Inr \<lparr>turn_output.strategy = [], speech = ''Hello.'', vote = None\<rparr>)) day_one 1 rick ()
     = (Inr \<lparr>turn_output.strategy = [], speech = ''Hello.'', vote = None\<rparr>, ())
   \<and> player_state.strategy (state (fst (snd (take_turn
        (stub_client (Inr \<lparr>turn_output.strategy = [], speech = ''Hello.'', vote = None\<rparr>)) day_one 1 rick ()))))
      \<noteq> turn_output.strategy \<lparr>turn_output.strategy = [], speech = ''Hello.'', vote = None\<rparr>"
  by (simp add: take_turn_def turn_call_def stub_client_def rick_def)

text \<open>
  C10. Whatever the client does, \<^verbatim>\<open>take_turn\<close> leaves every component of the agent
  other than the strategy as it was: name, role, provider, model, invocation mode, alive
  flag, index, partner reference, persistent memory and the memory switch.
\<close>

theorem take_turn_frame:
  "name (state (fst (snd (take_turn client gs n p w)))) = name (state p)
   \<and> role (state (fst (snd (take_turn client gs n p w)))) = role (state p)
   \<and> provider (state (fst (snd (take_turn client gs n p w)))) = provider (state p)
   \<and> model_name (state (fst (snd (take_turn client gs n p w)))) = model_name (state p)
   \<and> use_cli (state (fst (snd (take_turn client gs n p w)))) = use_cli (state p)
   \<and> is_alive (state (fst (snd (take_turn client gs n p w)))) = is_alive (state p)
   \<and> player_index (fst (snd (take_turn client gs n p w))) = player_index p
   \<and> partner_name (fst (snd (take_turn client gs n p w))) = partner_name p
   \<and> memory (fst (snd (take_turn client gs n p w))) = memory p
   \<and> memory_enabled (fst (snd (take_turn client gs n p w))) = memory_enabled p"
  by (simp add: take_turn_def split: prod.split sum.split)



lemma sublist_concat_map: "x \<in> set xs \<Longrightarrow> sublist (f x) (concat (map f xs))"
proof -
  assume "x \<in> set xs"
  then obtain ys zs where "xs = ys @ x # zs" by (auto simp: in_set_conv_decomp)
  then have "concat (map f xs) = concat (map f ys) @ f x @ concat (map f zs)" by simp
  then show ?thesis by (metis sublist_appendI)
qed


text \<open>
  C7 (amended). The turn prompt of \<^verbatim>\<open>reflect_on_game\<close> renders, in log order and in the
  form \<^verbatim>\<open>[phase] actor: content\<close>, every entry of the public log except the entries of
  phase Reflection whose actor is not System, and then every entry of the Mafia-only log.
\<close>

theorem reflect_turn_prompt_logs:
  "(\<exists>tail. reflect_turn_prompt p gs =
       ''--- PUBLIC GAME LOG ---\<newline>''
       @ concat (map render_log
           (filter (\<lambda>l. \<not> (log_entry.phase l = ''Reflection'' \<and> actor l \<noteq> ''System'')) (public_logs gs)))
       @ ''\<newline>--- SECRET MAFIA LOG (Revealed) ---\<newline>''
       @ concat (map render_log (mafia_logs gs))
       @ tail)
   \<and> (\<forall>l \<in> set (public_logs gs).
         \<not> (log_entry.phase l = ''Reflection'' \<and> actor l \<noteq> ''System'') \<longrightarrow>
         sublist (''['' @ log_entry.phase l @ ''] '' @ actor l @ '': '' @ content l @ ''\<newline>'')
           (reflect_turn_prompt p gs))
   \<and> (\<forall>l \<in> set (mafia_logs gs).
         sublist (''['' @ log_entry.phase l @ ''] '' @ actor l @ '': '' @ content l @ ''\<newline>'')
           (reflect_turn_prompt p gs))"
proof (intro conjI ballI impI)
  show "\<exists>tail. reflect_turn_prompt p gs =
       ''--- PUBLIC GAME LOG ---\<newline>''
       @ concat (map render_log
           (filter (\<lambda>l. \<not> (log_entry.phase l = ''Reflection'' \<and> actor l \<noteq> ''System'')) (public_logs gs)))
       @ ''\<newline>--- SECRET MAFIA LOG (Revealed) ---\<newline>''
       @ concat (map render_log (mafia_logs gs))
       @ tail"
    unfolding reflect_turn_prompt_def reflect_kept_def by (intro exI) (simp only: append_assoc)
next
  fix l
  assume l: "l \<in> set (public_logs gs)"
    and k: "\<not> (log_entry.phase l = ''Reflection'' \<and> actor l \<noteq> ''System'')"
  then have "l \<in> set (filter reflect_kept (public_logs gs))"
    by (simp add: reflect_kept_def)
  then have "sublist (render_log l) (concat (map render_log (filter reflect_kept (public_logs gs))))"
    by (rule sublist_concat_map)
  then obtain a b where "concat (map render_log (filter reflect_kept (public_logs gs))) = a @ render_log l @ b"
    by (auto simp: sublist_def)
  then have "\<exists>u v. reflect_turn_prompt p gs = u @ render_log l @ v"
    unfolding reflect_turn_prompt_def by (metis append_assoc)
  then show "sublist (''['' @ log_entry.phase l @ ''] '' @ actor l @ '': '' @ content l @ ''\<newline>'')
           (reflect_turn_prompt p gs)"
    by (auto simp: sublist_def render_log_def)
next
  fix l
  assume l: "l \<in> set (mafia_logs gs)"
  then have "sublist (render_log l) (concat (map render_log (mafia_logs gs)))"
    by (rule sublist_concat_map)
  then obtain a b where "concat (map render_log (mafia_logs gs)) = a @ render_log l @ b"
    by (auto simp: sublist_def)
  then have "\<exists>u v. reflect_turn_prompt p gs = u @ render_log l @ v"
    unfolding reflect_turn_prompt_def by (metis append_assoc)
  then show "sublist (''['' @ log_entry.phase l @ ''] '' @ actor l @ '': '' @ content l @ ''\<newline>'')
           (reflect_turn_prompt p gs)"
    by (auto simp: sublist_def render_log_def)
qed

theorem reflect_turn_prompt_logs_witness:
  "sublist ''[Day] Morty: I trust Rick.\<newline>[Reflection] System: Mafia wins.\<newline>'' (reflect_turn_prompt rick game_over)
   \<and> sublist ''[Night] Rick: Kill Summer.\<newline>'' (reflect_turn_prompt rick game_over)"
proof -
  have a: "\<lparr>log_entry.phase = ''Night'', actor = ''Rick'', content = ''Kill Summer.''\<rparr> \<in> set (mafia_logs game_over)"
    by (simp add: game_over_def)
  from reflect_turn_prompt_logs [of rick game_over] a
  have 1: "sublist ''[Night] Rick: Kill Summer.\<newline>'' (reflect_turn_prompt rick game_over)"
    by fastforce
  from reflect_turn_prompt_logs [of rick game_over]
  obtain tail where "reflect_turn_prompt rick game_over =
       ''--- PUBLIC GAME LOG ---\<newline>''
       @ concat (map render_log
           (filter (\<lambda>l. \<not> (log_entry.phase l = ''Reflection'' \<and> actor l \<noteq> ''System'')) (public_logs game_over)))
       @ ''\<newline>--- SECRET MAFIA LOG (Revealed) ---\<newline>''
       @ concat (map render_log (mafia_logs game_over))
       @ tail" by blast
  then have "reflect_turn_prompt rick game_over =
       ''--- PUBLIC GAME LOG ---\<newline>'' @ ''[Day] Morty: I trust Rick.\<newline>[Reflection] System: Mafia wins.\<newline>''
       @ (''\<newline>--- SECRET MAFIA LOG (Revealed) ---\<newline>''
       @ concat (map render_log (mafia_logs game_over))
       @ tail)"
    by (simp add: game_over_def render_log_def)
  then have 2: "sublist ''[Day] Morty: I trust Rick.\<newline>[Reflection] System: Mafia wins.\<newline>'' (reflect_turn_prompt rick game_over)"
    by (metis sublist_appendI)
  from 1 2 show ?thesis by simp
qed

text \<open>
  The statement of C7 for every public entry fails: lines 176 and 177 skip a public entry
  of phase Reflection written by a player.
\<close>

theorem reflect_turn_prompt_counterexample:
  "\<lparr>log_entry.phase = ''Reflection'', actor = ''Morty'', content = ''Never again.''\<rparr> \<in> set (public_logs game_over)
   \<and> \<not> sublist ''[Reflection] Morty: Never again.\<newline>'' (reflect_turn_prompt rick game_over)"
  by code_simp






section \<open>Properties of the dispatcher\<close>










section \<open>Properties of the cleaning step\<close>

lemma whitespace_inert: "q \<in> set whitespace \<Longrightarrow> c \<in> set q \<Longrightarrow> inert c"
  by (auto simp: whitespace_def inert_def)

lemma whitespace_prefix_free_all:
  "\<forall>q \<in> set whitespace. \<forall>q' \<in> set whitespace. prefix q q' \<longrightarrow> q = q'"
  by code_simp

lemma whitespace_suffix_free_all:
  "\<forall>q \<in> set whitespace. \<forall>q' \<in> set whitespace. suffix q q' \<longrightarrow> q = q'"
  by code_simp

lemma leading_space_app:
  assumes "q \<in> set whitespace"
  shows "leading_space (q @ s) = Some q"
proof -
  have "leading_space (q @ s) \<noteq> None"
    using assms by (auto simp: leading_space_def find_None_iff)
  then obtain q' where q': "leading_space (q @ s) = Some q'" by blast
  then have m: "q' \<in> set whitespace" and p: "prefix q' (q @ s)"
    using leading_space_SomeD by blast+
  have "prefix q (q @ s)" by simp
  with p have "prefix q q' \<or> prefix q' q" by (rule prefix_same_cases [THEN disjE]) auto
  with m assms whitespace_prefix_free_all have "q' = q" by blast
  with q' show ?thesis by simp
qed

lemma trailing_space_app:
  assumes "q \<in> set whitespace"
  shows "trailing_space (s @ q) = Some q"
proof -
  have "trailing_space (s @ q) \<noteq> None"
    using assms by (auto simp: trailing_space_def find_None_iff suffix_def)
  then obtain q' where q': "trailing_space (s @ q) = Some q'" by blast
  then have m: "q' \<in> set whitespace" and p: "suffix q' (s @ q)"
    using trailing_space_SomeD by blast+
  have "suffix q (s @ q)" by (simp add: suffix_def)
  with p have "suffix q q' \<or> suffix q' q" by (rule suffix_same_cases [THEN disjE]) auto
  with m assms whitespace_suffix_free_all have "q' = q" by blast
  with q' show ?thesis by simp
qed

lemma lstrip_app: "q \<in> set whitespace \<Longrightarrow> lstrip (q @ s) = lstrip s"
  by (subst lstrip.simps) (simp add: leading_space_app)

lemma rstrip_app: "q \<in> set whitespace \<Longrightarrow> rstrip (s @ q) = rstrip s"
  by (subst rstrip.simps) (simp add: trailing_space_app)

lemma blank_cases:
  assumes "blank w"
  shows "w = [] \<or> (\<exists>q w'. q \<in> set whitespace \<and> w = q @ w' \<and> blank w')"
proof (cases "leading_space w")
  case None
  with assms show ?thesis by (simp add: blank_def lstrip.simps)
next
  case (Some q)
  then have q: "q \<in> set whitespace" and p: "prefix q w"
    using leading_space_SomeD by blast+
  from p obtain w' where w: "w = q @ w'" by (auto simp: prefix_def)
  with assms q have "blank w'" by (simp add: blank_def lstrip_app)
  with q w show ?thesis by blast
qed

lemma blank_induct [consumes 1, case_names Nil App]:
  assumes "blank w"
    and "P []"
    and "\<And>q w'. q \<in> set whitespace \<Longrightarrow> blank w' \<Longrightarrow> P w' \<Longrightarrow> P (q @ w')"
  shows "P w"
  using assms(1)
proof (induction w rule: length_induct)
  case (1 w)
  from blank_cases [OF "1.prems"] show ?case
  proof
    assume "w = []"
    with assms(2) show ?thesis by simp
  next
    assume "\<exists>q w'. q \<in> set whitespace \<and> w = q @ w' \<and> blank w'"
    then obtain q w' where q: "q \<in> set whitespace" and w: "w = q @ w'" and b: "blank w'" by blast
    from q have "q \<noteq> []" by (rule whitespace_nonempty)
    with w have "length w' < length w" by simp
    with "1.IH" b have "P w'" by blast
    with assms(3) q b w show ?thesis by blast
  qed
qed

lemma blank_Nil [simp]: "blank []"
  by (simp add: blank_def lstrip.simps leading_space_def whitespace_def)

lemma blank_app: "q \<in> set whitespace \<Longrightarrow> blank w \<Longrightarrow> blank (q @ w)"
  by (simp add: blank_def lstrip_app)

lemma lstrip_blank: "blank w \<Longrightarrow> lstrip (w @ s) = lstrip s"
  by (induction w rule: blank_induct) (simp_all add: lstrip_app)

lemma rstrip_blank: "blank w \<Longrightarrow> rstrip (s @ w) = rstrip s"
proof (induction w arbitrary: s rule: blank_induct)
  case Nil
  show ?case by simp
next
  case (App q w')
  have "rstrip (s @ q @ w') = rstrip ((s @ q) @ w')" by simp
  also have "\<dots> = rstrip (s @ q)" by (rule App.IH)
  also have "\<dots> = rstrip s" using App.hyps(1) by (rule rstrip_app)
  finally show ?case .
qed

lemma blank_inert: "blank w \<Longrightarrow> c \<in> set w \<Longrightarrow> inert c"
proof (induction w rule: blank_induct)
  case Nil
  then show ?case by simp
next
  case (App q w')
  from App.prems have "c \<in> set q \<or> c \<in> set w'" by simp
  then show ?case using App.hyps(1) App.IH whitespace_inert by blast
qed

lemma lstrip_fix: "\<not> inert c \<Longrightarrow> lstrip (c # s) = c # s"
proof -
  assume c: "\<not> inert c"
  have "leading_space (c # s) = None"
  proof (rule ccontr)
    assume "leading_space (c # s) \<noteq> None"
    then obtain q where q: "q \<in> set whitespace" "prefix q (c # s)"
      using leading_space_SomeD by blast
    then have "q \<noteq> []" using whitespace_nonempty by blast
    then obtain x xs where "q = x # xs" by (cases q) auto
    with q(2) have "c \<in> set q" by simp
    with c q(1) whitespace_inert show False by blast
  qed
  then show ?thesis by (simp add: lstrip.simps)
qed

lemma rstrip_fix: "\<not> inert c \<Longrightarrow> rstrip (s @ [c]) = s @ [c]"
proof -
  assume c: "\<not> inert c"
  have "trailing_space (s @ [c]) = None"
  proof (rule ccontr)
    assume "trailing_space (s @ [c]) \<noteq> None"
    then obtain q where q: "q \<in> set whitespace" "suffix q (s @ [c])"
      using trailing_space_SomeD by blast
    then have "q \<noteq> []" using whitespace_nonempty by blast
    then obtain x xs where "q = xs @ [x]" by (cases q rule: rev_cases) auto
    with q(2) have "c \<in> set q" by simp
    with c q(1) whitespace_inert show False by blast
  qed
  then show ?thesis by (simp add: rstrip.simps)
qed

lemma str_strip_core:
  assumes "blank w1" "blank w2" "\<not> inert c" "\<not> inert d"
  shows "str_strip (w1 @ c # m @ d # w2) = c # m @ [d]"
proof -
  have 1: "lstrip (w1 @ c # m @ d # w2) = c # m @ d # w2"
    using assms(1,3) by (simp add: lstrip_blank lstrip_fix)
  have "rstrip (c # m @ d # w2) = rstrip (((c # m) @ [d]) @ w2)" by simp
  also have "\<dots> = rstrip ((c # m) @ [d])" using assms(2) by (rule rstrip_blank)
  also have "\<dots> = (c # m) @ [d]" using assms(4) by (rule rstrip_fix)
  finally have 2: "rstrip (c # m @ d # w2) = c # m @ [d]" by simp
  from 1 2 show ?thesis by (simp add: str_strip_def)
qed

lemma prefix_barrier:
  assumes "prefix old (u @ c # b)" and "c \<notin> set old"
  shows "prefix old u"
proof -
  from assms(1) consider "prefix old u" | us where "old = u @ us" "prefix us (c # b)"
    by (auto simp: prefix_append)
  then show ?thesis
  proof cases
    case 1
    then show ?thesis .
  next
    case 2
    with assms(2) have "us = []" by (cases us) auto
    with 2 show ?thesis by simp
  qed
qed

lemma str_replace_barrier:
  assumes "c \<notin> set old"
  shows "str_replace old new (a @ c # b) = str_replace old new a @ c # str_replace old new b"
proof (cases "old = []")
  case True
  then show ?thesis by (induction a) simp_all
next
  case ne: False
  show ?thesis
  proof (induction a rule: length_induct)
    case (1 a)
    show ?case
    proof (cases a)
      case Nil
      have "\<not> prefix old (c # b)"
        using assms ne by (cases old) auto
      with Nil ne show ?thesis by simp
    next
      case (Cons x xs)
      show ?thesis
      proof (cases "prefix old (x # xs)")
        case True
        then have p: "prefix old (x # xs @ c # b)"
          using prefix_prefix [of old "x # xs" "c # b"] by simp
        from True have "length old \<le> length (x # xs)" by (rule prefix_length_le)
        then have d: "drop (length old) (x # xs @ c # b) = drop (length old) (x # xs) @ c # b"
          using drop_append [of "length old" "x # xs" "c # b"] by simp
        from ne have "length (drop (length old) (x # xs)) < length a"
          using Cons by (cases old) auto
        with "1.IH" have "str_replace old new (drop (length old) (x # xs) @ c # b) =
            str_replace old new (drop (length old) (x # xs)) @ c # str_replace old new b"
          by blast
        with True p d ne Cons show ?thesis by simp
      next
        case False
        with prefix_barrier [OF _ assms, of "x # xs" b] have np: "\<not> prefix old (x # xs @ c # b)"
          by auto
        from "1.IH" Cons have "str_replace old new (xs @ c # b) =
            str_replace old new xs @ c # str_replace old new b"
          by simp
        with False np ne Cons show ?thesis by simp
      qed
    qed
  qed
qed

lemma str_replace_match:
  "old \<noteq> [] \<Longrightarrow> str_replace old new (old @ s) = new @ str_replace old new s"
  by (cases old) simp_all

lemma str_replace_skip:
  "hd old \<notin> set a \<Longrightarrow> old \<noteq> [] \<Longrightarrow> str_replace old new (a @ s) = a @ str_replace old new s"
proof (induction a)
  case Nil
  show ?case by simp
next
  case (Cons x xs)
  then have "\<not> prefix old (x # xs @ s)" by (cases old) auto
  with Cons show ?case by simp
qed

lemma str_replace_absent:
  "\<not> sublist old s \<Longrightarrow> str_replace old new s = s"
proof (induction s)
  case Nil
  then show ?case by auto
next
  case (Cons x xs)
  then have "\<not> prefix old (x # xs)" "\<not> sublist old xs" "old \<noteq> []"
    by (auto simp: sublist_Cons_right)
  with Cons.IH show ?case by simp
qed

lemma sublist_set: "sublist p s \<Longrightarrow> set p \<subseteq> set s"
  by (auto simp: sublist_def)

lemma blank_append: "blank a \<Longrightarrow> blank b \<Longrightarrow> blank (a @ b)"
  by (simp add: blank_def lstrip_blank)

lemma not_inert [simp]:
  "\<not> inert (CHR ''`'')" "\<not> inert (CHR ''j'')" "\<not> inert (CHR ''{'')" "\<not> inert (CHR ''}'')"
  by (simp_all add: inert_def)

lemma blank_free:
  assumes "blank w" and "\<not> inert c"
  shows "c \<notin> set w"
  using assms blank_inert by blast

text \<open>Removing the fences from the text before the object and from the text after it.\<close>

lemma unfence_head:
  assumes "blank w1" "blank w2" "tag = [] \<or> tag = ''json''"
  shows "str_replace ''```'' [] (str_replace ''```json'' [] (w1 @ ''```'' @ tag @ w2)) = w1 @ w2"
proof -
  have b1: "CHR ''`'' \<notin> set w1" and b2: "CHR ''`'' \<notin> set w2" and j2: "CHR ''j'' \<notin> set w2"
    using assms(1,2) by (simp_all add: blank_free)
  have w2: "str_replace ''```json'' [] w2 = w2" "str_replace ''```'' [] w2 = w2"
    using b2 str_replace_skip [of "''```json''" w2 "[]" "[]"] str_replace_skip [of "''```''" w2 "[]" "[]"]
    by simp_all
  have s2: "str_replace ''```'' [] (w1 @ w2) = w1 @ w2"
    using b1 b2 str_replace_skip [of "''```''" "w1 @ w2" "[]" "[]"] by simp
  have s3: "str_replace ''```'' [] (w1 @ ''```'' @ w2) = w1 @ w2"
  proof -
    have "str_replace ''```'' [] (w1 @ ''```'' @ w2) = w1 @ str_replace ''```'' [] (''```'' @ w2)"
      using b1 by (intro str_replace_skip) simp_all
    also have "str_replace ''```'' [] (''```'' @ w2) = [] @ str_replace ''```'' [] w2"
      by (intro str_replace_match) simp
    finally show ?thesis using w2 by simp
  qed
  from assms(3) show ?thesis
  proof
    assume t: "tag = []"
    have "\<not> sublist ''```json'' (w1 @ ''```'' @ w2)"
    proof
      assume "sublist ''```json'' (w1 @ ''```'' @ w2)"
      then have "CHR ''j'' \<in> set (w1 @ ''```'' @ w2)" using sublist_set by fastforce
      with j2 assms(1) show False by (auto simp: blank_free)
    qed
    then have "str_replace ''```json'' [] (w1 @ ''```'' @ w2) = w1 @ ''```'' @ w2"
      by (rule str_replace_absent)
    with t s3 show ?thesis by simp
  next
    assume t: "tag = ''json''"
    have "str_replace ''```json'' [] (w1 @ ''```json'' @ w2) = w1 @ str_replace ''```json'' [] (''```json'' @ w2)"
      using b1 by (intro str_replace_skip) simp_all
    also have "str_replace ''```json'' [] (''```json'' @ w2) = [] @ str_replace ''```json'' [] w2"
      by (intro str_replace_match) simp
    finally have "str_replace ''```json'' [] (w1 @ ''```json'' @ w2) = w1 @ w2"
      using w2 by simp
    with t s2 show ?thesis by simp
  qed
qed

lemma unfence_tail:
  assumes "blank w3" "blank w4"
  shows "str_replace ''```'' [] (str_replace ''```json'' [] (w3 @ ''```'' @ w4)) = w3 @ w4"
  using unfence_head [OF assms, of "[]"] by simp

lemma clean_object:
  "str_replace ''```'' [] (str_replace ''```json'' [] (a @ CHR ''{'' # m @ CHR ''}'' # z)) =
     str_replace ''```'' [] (str_replace ''```json'' [] a)
       @ CHR ''{'' # str_replace ''```'' [] (str_replace ''```json'' [] m)
       @ CHR ''}'' # str_replace ''```'' [] (str_replace ''```json'' [] z)"
proof -
  have 1: "str_replace ''```json'' [] (a @ CHR ''{'' # m @ CHR ''}'' # z) =
      str_replace ''```json'' [] a @ CHR ''{'' # str_replace ''```json'' [] m
        @ CHR ''}'' # str_replace ''```json'' [] z"
    by (simp add: str_replace_barrier)
  show ?thesis
    unfolding 1 by (simp add: str_replace_barrier)
qed

lemma clean_fenced:
  assumes "blank w1" "blank w2" "blank w3" "blank w4" "tag = [] \<or> tag = ''json''"
  shows "str_strip (str_replace ''```'' [] (str_replace ''```json'' []
           (w1 @ ''```'' @ tag @ w2 @ ''{'' @ m @ ''}'' @ w3 @ ''```'' @ w4))) =
         CHR ''{'' # str_replace ''```'' [] (str_replace ''```json'' [] m) @ ''}''"
proof -
  have e: "w1 @ ''```'' @ tag @ w2 @ ''{'' @ m @ ''}'' @ w3 @ ''```'' @ w4 =
      (w1 @ ''```'' @ tag @ w2) @ CHR ''{'' # m @ CHR ''}'' # (w3 @ ''```'' @ w4)"
    by simp
  have b: "blank (w1 @ w2)" "blank (w3 @ w4)"
    using assms by (simp_all add: blank_append)
  show ?thesis
    unfolding e clean_object unfence_head [OF assms(1,2,5)] unfence_tail [OF assms(3,4)]
    using b by (intro str_strip_core) simp_all
qed

lemma clean_bare:
  "str_strip (str_replace ''```'' [] (str_replace ''```json'' [] (''{'' @ m @ ''}''))) =
     CHR ''{'' # str_replace ''```'' [] (str_replace ''```json'' [] m) @ ''}''"
proof -
  have "str_replace ''```'' [] (str_replace ''```json'' [] (''{'' @ m @ ''}'')) =
      [] @ CHR ''{'' # str_replace ''```'' [] (str_replace ''```json'' [] m) @ CHR ''}'' # []"
    using clean_object [of "[]" m "[]"] by simp
  moreover have "str_strip ([] @ CHR ''{'' # str_replace ''```'' [] (str_replace ''```json'' [] m) @ CHR ''}'' # [])
      = CHR ''{'' # str_replace ''```'' [] (str_replace ''```json'' [] m) @ [CHR ''}'']"
    by (intro str_strip_core) simp_all
  ultimately show ?thesis by simp
qed

lemma hold_fenced_reply:
  "parse_and_validate env hold_fenced
     = Inr \<lparr>turn_output.strategy = ''hold'', speech = [], vote = None\<rparr>"
  by code_simp

text \<open>
  C5 (amended). A text \<^verbatim>\<open>{...}\<close> wrapped in code fences, where the opening fence is
  \<^verbatim>\<open>```\<close> or \<^verbatim>\<open>```json\<close> and whitespace may surround the fences and the object,
  parses to the same outcome (the same Decision, or the same error) as the text itself. In
  particular the fenced example of the specification parses to the Decision with strategy
  \<^verbatim>\<open>hold\<close>, empty speech and null vote.
\<close>

theorem fenced_response:
  "(blank w1 \<and> blank w2 \<and> blank w3 \<and> blank w4 \<and> (tag = [] \<or> tag = ''json'') \<longrightarrow>
      parse_and_validate env (w1 @ ''```'' @ tag @ w2 @ ''{'' @ m @ ''}'' @ w3 @ ''```'' @ w4)
        = parse_and_validate env (''{'' @ m @ ''}''))
   \<and> parse_and_validate env hold_fenced
        = Inr \<lparr>turn_output.strategy = ''hold'', speech = [], vote = None\<rparr>"
proof (intro conjI impI)
  assume a: "blank w1 \<and> blank w2 \<and> blank w3 \<and> blank w4 \<and> (tag = [] \<or> tag = ''json'')"
  then have c: "str_strip (str_replace ''```'' [] (str_replace ''```json'' []
           (w1 @ ''```'' @ tag @ w2 @ ''{'' @ m @ ''}'' @ w3 @ ''```'' @ w4))) =
      str_strip (str_replace ''```'' [] (str_replace ''```json'' [] (''{'' @ m @ ''}'')))"
    by (simp only: clean_fenced clean_bare)
  show "parse_and_validate env (w1 @ ''```'' @ tag @ w2 @ ''{'' @ m @ ''}'' @ w3 @ ''```'' @ w4)
        = parse_and_validate env (''{'' @ m @ ''}'')"
    unfolding parse_and_validate_def c ..
next
  show "parse_and_validate env hold_fenced
        = Inr \<lparr>turn_output.strategy = ''hold'', speech = [], vote = None\<rparr>"
    by (rule hold_fenced_reply)
qed

theorem fenced_response_witness:
  \<open>blank ''  '' \<and> blank ''\<newline>''
   \<and> parse_and_validate (tool [])
        (''  '' @ ''```'' @ ''json'' @ ''\<newline>'' @ ''{'' @ ''"strategy":"hold","speech":"","vote":null'' @ ''}''
           @ ''\<newline>'' @ ''```'' @ ''  '')
       = parse_and_validate (tool []) (''{'' @ ''"strategy":"hold","speech":"","vote":null'' @ ''}'')
   \<and> parse_and_validate (tool []) hold_fenced
       = Inr \<lparr>turn_output.strategy = ''hold'', speech = [], vote = None\<rparr>\<close>
proof -
  have b1: "blank ''  ''" and b2: "blank ''\<newline>''"
    by code_simp+
  from fenced_response [of "''  ''" "''\<newline>''" "''\<newline>''" "''  ''" "''json''" "tool []"
      \<open>''"strategy":"hold","speech":"","vote":null''\<close>] b1 b2
  show ?thesis by blast
qed

text \<open>
  The statement of C5 for every language tag fails: line 59 removes \<^verbatim>\<open>```json\<close> and
  \<^verbatim>\<open>```\<close> only, so the tag \<^verbatim>\<open>python\<close> stays in front of the object and the text
  no longer parses.
\<close>

theorem fenced_response_counterexample:
  \<open>parse_and_validate (tool []) hold_json
     = Inr \<lparr>turn_output.strategy = ''hold'', speech = [], vote = None\<rparr>
   \<and> parse_and_validate (tool []) (''```python\<newline>'' @ hold_json @ ''\<newline>```'')
     = Inl (ValueError ''Failed to parse model output as JSON: invalid'')\<close>
  by code_simp

(*THEOREMS*)
end
